theory Spec2Isabelle
  imports Main "HOL-Library.Word" "HOL-Library.Sublist"
begin

section \<open>Strings and the pattern that finds the current word\<close>

text \<open>
  A JavaScript string is a sequence of UTF-16 code units. The pattern \<^verbatim>\<open>/(\S+)$/\<close> has no
  \<^verbatim>\<open>u\<close> flag, so it works on code units.
\<close>

type_synonym char16 = "16 word"
type_synonym jsstring = "char16 list"

text \<open>
  The class \<^verbatim>\<open>\s\<close> of ECMAScript: the WhiteSpace and LineTerminator code points
  (tab, LF, VT, FF, CR, space, NBSP, U+1680, U+2000 to U+200A, U+2028, U+2029, U+202F,
  U+205F, U+3000, U+FEFF). \<^verbatim>\<open>\S\<close> is its complement.
\<close>

definition is_space :: "char16 \<Rightarrow> bool" where
  "is_space c =
     (c = 0x09 \<or> c = 0x0A \<or> c = 0x0B \<or> c = 0x0C \<or> c = 0x0D \<or> c = 0x20 \<or> c = 0xA0
      \<or> c = 0x1680 \<or> (0x2000 \<le> c \<and> c \<le> 0x200A) \<or> c = 0x2028 \<or> c = 0x2029
      \<or> c = 0x202F \<or> c = 0x205F \<or> c = 0x3000 \<or> c = 0xFEFF)"

definition non_space :: "char16 \<Rightarrow> bool" where
  "non_space c = (\<not> is_space c)"

text \<open>The placeholder the handlers pass as \<^verbatim>\<open>leafText\<close>: \<^verbatim>\<open>'\ufffc'\<close>.\<close>

definition placeholder :: char16 where
  "placeholder = 0xFFFC"

text \<open>
  \<^verbatim>\<open>textBefore.match(/(\S+)$/)\<close>, as a backtracking matcher runs it. At one start position
  the greedy \<^verbatim>\<open>\S+\<close> first takes the longest run of non-whitespace code units; the
  assertion \<^verbatim>\<open>$\<close> (no \<^verbatim>\<open>m\<close> flag: end of input) is then tried, and on failure the
  quantifier gives back one code unit at a time, down to one. \<open>try_lengths s k\<close> is that
  loop, from \<open>k\<close> code units downwards; its result is the capture group.
\<close>

fun try_lengths :: "jsstring \<Rightarrow> nat \<Rightarrow> jsstring option" where
  "try_lengths s 0 = None"
| "try_lengths s (Suc k) =
     (if drop (Suc k) s = [] then Some (take (Suc k) s) else try_lengths s k)"

definition match_at :: "jsstring \<Rightarrow> jsstring option" where
  "match_at s = try_lengths s (length (takeWhile non_space s))"

text \<open>
  The search tries the start positions from left to right, the end of the string included,
  and stops at the first one where the pattern matches. \<open>None\<close> is \<^verbatim>\<open>null\<close>;
  \<open>Some w\<close> is a match whose group 1 is \<open>w\<close>.
\<close>

fun wordMatch :: "jsstring \<Rightarrow> jsstring option" where
  "wordMatch [] = match_at []"
| "wordMatch (c # cs) =
     (case match_at (c # cs) of Some w \<Rightarrow> Some w | None \<Rightarrow> wordMatch cs)"

section \<open>The document\<close>

text \<open>
  A document is the content of the top node: a sequence of blocks. A textblock (a
  paragraph, a heading) holds inline nodes of size 1: the code units of its text and its
  inline leaves (an image, a mention, a hard break). A block leaf (a horizontal rule) has
  size 1. Any other block (a blockquote, a list, a list item) holds blocks. A node that is
  not a leaf has an opening and a closing token, so its size is the size of its content
  plus 2. Marks and inline nodes with content are left out.
\<close>

datatype inline = Text char16 | Leaf

datatype block = Textblock "inline list" | BlockLeaf | Container "block list"

fun nodeSize :: "block \<Rightarrow> nat" and contentSize :: "block list \<Rightarrow> nat" where
  "nodeSize (Textblock cs) = length cs + 2"
| "nodeSize BlockLeaf = 1"
| "nodeSize (Container bs) = contentSize bs + 2"
| "contentSize [] = 0"
| "contentSize (b # bs) = nodeSize b + contentSize bs"

text \<open>
  \<^verbatim>\<open>doc.resolve(pos)\<close>, returning the parent node and \<^verbatim>\<open>parentOffset\<close>. The editor throws
  a RangeError for a position beyond the content of the document: that is \<open>None\<close>. Any
  other position resolves: \<open>descend\<close> walks the children of a node; a position on the
  boundary between two children (or at either end) has this node as its parent, a
  position strictly inside a child goes down into it. The top node is \<open>Container d\<close>.
\<close>

fun descend :: "block \<Rightarrow> nat \<Rightarrow> block list \<Rightarrow> nat \<Rightarrow> (block \<times> nat) option" where
  "descend parent off [] rem = (if rem = 0 then Some (parent, off) else None)"
| "descend parent off (Textblock cs # bs) rem =
     (if rem = 0 then Some (parent, off)
      else if rem < length cs + 2 then Some (Textblock cs, rem - 1)
      else descend parent off bs (rem - (length cs + 2)))"
| "descend parent off (BlockLeaf # bs) rem =
     (if rem = 0 then Some (parent, off) else descend parent off bs (rem - 1))"
| "descend parent off (Container cs # bs) rem =
     (if rem = 0 then Some (parent, off)
      else if rem < contentSize cs + 2 then descend (Container cs) (rem - 1) cs (rem - 1)
      else descend parent off bs (rem - (contentSize cs + 2)))"

definition resolve :: "block list \<Rightarrow> nat \<Rightarrow> (block \<times> nat) option" where
  "resolve d pos = (if pos \<le> contentSize d then descend (Container d) pos d pos else None)"

text \<open>
  \<^verbatim>\<open>node.textBetween(from, to, undefined, leafText)\<close>, with offsets relative to the node's
  content. The editor visits every child that overlaps the range: a code unit gives
  itself, a leaf (inline or block) gives \<open>leafText\<close> (nothing when it is not given; node
  types that bring a leaf text of their own are left out), any other node gives nothing
  itself and is entered with the range moved by its opening token. No block separator is
  passed, so the texts of consecutive blocks are joined as they are.
\<close>

definition leafNodeText :: "jsstring option \<Rightarrow> jsstring" where
  "leafNodeText leafText = (case leafText of None \<Rightarrow> [] | Some t \<Rightarrow> t)"

definition nodeText :: "jsstring option \<Rightarrow> inline \<Rightarrow> jsstring" where
  "nodeText leafText n = (case n of Text c \<Rightarrow> [c] | Leaf \<Rightarrow> leafNodeText leafText)"

definition inlineText :: "inline list \<Rightarrow> nat \<Rightarrow> nat \<Rightarrow> jsstring option \<Rightarrow> jsstring" where
  "inlineText ns from to leafText =
     concat (map (nodeText leafText) (take (to - from) (drop from ns)))"

fun blocksText :: "block list \<Rightarrow> nat \<Rightarrow> nat \<Rightarrow> jsstring option \<Rightarrow> jsstring" where
  "blocksText [] from to leafText = []"
| "blocksText (Textblock cs # bs) from to leafText =
     (if to = 0 then []
      else (if from < length cs + 2
            then inlineText cs (from - 1) (min (length cs) (to - 1)) leafText else [])
           @ blocksText bs (from - (length cs + 2)) (to - (length cs + 2)) leafText)"
| "blocksText (BlockLeaf # bs) from to leafText =
     (if to = 0 then []
      else (if from < 1 then leafNodeText leafText else [])
           @ blocksText bs (from - 1) (to - 1) leafText)"
| "blocksText (Container cs # bs) from to leafText =
     (if to = 0 then []
      else (if from < contentSize cs + 2
            then blocksText cs (from - 1) (min (contentSize cs) (to - 1)) leafText else [])
           @ blocksText bs (from - (contentSize cs + 2)) (to - (contentSize cs + 2)) leafText)"

fun textBetween :: "block \<Rightarrow> nat \<Rightarrow> nat \<Rightarrow> jsstring option \<Rightarrow> jsstring" where
  "textBetween (Textblock cs) from to leafText = inlineText cs from to leafText"
| "textBetween BlockLeaf from to leafText = []"
| "textBetween (Container bs) from to leafText = blocksText bs from to leafText"

text \<open>
  The steps the code builds on \<^verbatim>\<open>state.tr\<close>: \<^verbatim>\<open>delete(from, to)\<close>,
  \<^verbatim>\<open>insertText(text, from, to)\<close> (\<open>to\<close> is \<open>from\<close> when the code passes two arguments)
  and \<^verbatim>\<open>replaceWith(from, to, schema.text(s))\<close>. A transaction is the list of its steps;
  each step's positions refer to the document the steps before it have produced. How the
  editor applies a step is not part of the extension.
\<close>

datatype step =
    Delete nat nat
  | InsertText jsstring nat nat
  | ReplaceWith nat nat jsstring

type_synonym transaction = "step list"

text \<open>\<^verbatim>\<open>schema.text(s)\<close>: the editor refuses an empty text node with a RangeError.\<close>

definition schema_text :: "jsstring \<Rightarrow> jsstring option" where
  "schema_text s = (if s = [] then None else Some s)"

section \<open>The engine, the options and the storage\<close>

text \<open>
  The engine is an external package; the extension uses three of its methods, taken here
  as parameters. \<^verbatim>\<open>Suggestion\<close> has the fields \<open>input\<close> and \<open>output\<close>;
  \<^verbatim>\<open>TanglishSuggestion\<close> extends it with the aliases.
\<close>

record suggestion =
  input :: jsstring
  "output" :: jsstring

record tanglishSuggestion = suggestion +
  tanglish :: jsstring
  tamil :: jsstring

record engine =
  transliterate :: "jsstring \<Rightarrow> jsstring"
  containsTargetScript :: "jsstring \<Rightarrow> bool"
  getSuggestions :: "jsstring \<Rightarrow> int \<Rightarrow> suggestion list"

text \<open>
  The options the handlers read. \<open>onSuggestionsUpdate\<close> tells whether the optional callback
  is configured; its calls are recorded as \<open>Notify\<close> effects. The two numeric options are
  taken as integers.
\<close>

record options =
  triggerChars :: "jsstring list"
  onSuggestionsUpdate :: bool
  minCharsForSuggestion :: int
  maxSuggestions :: int

record storage =
  engine :: "engine option"
  enabled :: bool

record 'n coords =
  coords_top :: 'n
  coords_bottom :: 'n
  coords_left :: 'n
  coords_right :: 'n

record 'n position =
  position_top :: 'n
  position_left :: 'n

record editorState =
  doc :: "block list"
  selection_from :: nat
  selection_to :: nat

record 'n editorView =
  state :: editorState
  coordsAtPos :: "nat \<Rightarrow> 'n coords"

text \<open>
  What a handler does to the outside, in the order it does it: \<^verbatim>\<open>view.dispatch(tr)\<close> and
  \<^verbatim>\<open>onSuggestionsUpdate(suggestions, position)\<close> (\<open>None\<close> is \<^verbatim>\<open>null\<close>).
\<close>

datatype 'n effect =
    Dispatch transaction
  | Notify "tanglishSuggestion list" "'n position option"

fun notified :: "'n effect list \<Rightarrow> (tanglishSuggestion list \<times> 'n position option) list" where
  "notified [] = []"
| "notified (Dispatch tr # es) = notified es"
| "notified (Notify ss p # es) = (ss, p) # notified es"

definition Enter :: jsstring where
  "Enter = [0x45, 0x6E, 0x74, 0x65, 0x72]"

section \<open>Commands\<close>

text \<open>
  \<^verbatim>\<open>if (extension.options.onSuggestionsUpdate) extension.options.onSuggestionsUpdate([], null)\<close>
\<close>

definition clearSuggestions :: "options \<Rightarrow> 'n effect list" where
  "clearSuggestions opts = (if onSuggestionsUpdate opts then [Notify [] None] else [])"

definition setTransliteration ::
  "options \<Rightarrow> storage \<Rightarrow> bool \<Rightarrow> bool \<times> storage \<times> 'n effect list" where
  "setTransliteration opts st b =
     (True, st\<lparr>enabled := b\<rparr>,
      if \<not> b \<and> onSuggestionsUpdate opts then [Notify [] None] else [])"

definition toggleTransliteration ::
  "options \<Rightarrow> storage \<Rightarrow> bool \<times> storage \<times> 'n effect list" where
  "toggleTransliteration opts st = setTransliteration opts st (\<not> enabled st)"

text \<open>
  \<open>dispatch\<close> tells whether the command is given a \<^verbatim>\<open>dispatch\<close> function (a dry run,
  as \<^verbatim>\<open>editor.can()\<close> makes, gives none). \<^verbatim>\<open>state.doc.textBetween(from, to)\<close> passes no
  leaf text and resolves nothing; its loop over the children fails with a TypeError when
  \<open>to\<close> lies beyond the content of the document. The result is \<open>None\<close> where the editor
  throws.
\<close>

definition transliterateSelection ::
  "storage \<Rightarrow> editorState \<Rightarrow> bool \<Rightarrow> (bool \<times> 'n effect list) option" where
  "transliterateSelection st s dispatch =
     (case engine st of None \<Rightarrow> Some (False, [])
      | Some e \<Rightarrow>
          let from = selection_from s; to = selection_to s in
          if from = to then Some (False, [])
          else if contentSize (doc s) < to then None
          else
            let selectedText = textBetween (Container (doc s)) from to None;
                transliterated = transliterate e selectedText in
            if transliterated = selectedText then Some (False, [])
            else if dispatch
            then (case schema_text transliterated of None \<Rightarrow> None
                  | Some node \<Rightarrow> Some (True, [Dispatch [ReplaceWith from to node]]))
            else Some (True, []))"

section \<open>The plugin's handlers\<close>

text \<open>
  \<^verbatim>\<open>resolvedPos.parent.textBetween(0, resolvedPos.parentOffset, undefined, '\ufffc')\<close>
  followed by \<^verbatim>\<open>textBefore.match(/(\S+)$/)\<close>, as the three handlers do it.
\<close>

definition textBefore :: "block \<Rightarrow> nat \<Rightarrow> jsstring" where
  "textBefore parent parentOffset = textBetween parent 0 parentOffset (Some [placeholder])"

definition handleTextInput ::
  "options \<Rightarrow> storage \<Rightarrow> 'n editorView \<Rightarrow> nat \<Rightarrow> nat \<Rightarrow> jsstring
     \<Rightarrow> (bool \<times> 'n effect list) option" where
  "handleTextInput opts st view from to text =
     (if \<not> enabled st then Some (False, [])
      else
        (case engine st of None \<Rightarrow> Some (False, [])
         | Some e \<Rightarrow>
             if text \<in> set (triggerChars opts)
             then
               (case resolve (doc (state view)) from of None \<Rightarrow> None
                | Some (parent, parentOffset) \<Rightarrow>
                    (case wordMatch (textBefore parent parentOffset) of
                       None \<Rightarrow> Some (False, [])
                     | Some word \<Rightarrow>
                         let wordStart = from - length word in
                         if containsTargetScript e word then Some (False, [])
                         else
                           let transliterated = transliterate e word in
                           if transliterated = word then Some (False, [])
                           else Some (True,
                                  Dispatch [Delete wordStart from,
                                            InsertText (transliterated @ text) wordStart wordStart]
                                  # clearSuggestions opts)))
             else Some (False, [])))"

definition handleKeyDown ::
  "options \<Rightarrow> storage \<Rightarrow> 'n editorView \<Rightarrow> jsstring \<Rightarrow> (bool \<times> 'n effect list) option" where
  "handleKeyDown opts st view key =
     (if key = Enter \<and> enabled st
      then
        (case engine st of None \<Rightarrow> Some (False, [])
         | Some e \<Rightarrow>
             let from = selection_from (state view) in
             (case resolve (doc (state view)) from of None \<Rightarrow> None
              | Some (parent, parentOffset) \<Rightarrow>
                  (case wordMatch (textBefore parent parentOffset) of
                     None \<Rightarrow> Some (False, [])
                   | Some word \<Rightarrow>
                       let suggestions = getSuggestions e word 1 in
                       if length suggestions > 0
                          \<and> int (length word) \<ge> minCharsForSuggestion opts
                       then Some (False, [])
                       else if \<not> containsTargetScript e word
                       then
                         let transliterated = transliterate e word in
                         if transliterated \<noteq> word
                         then
                           let wordStart = from - length word in
                           Some (False,
                             Dispatch [Delete wordStart from,
                                       InsertText transliterated wordStart wordStart]
                             # clearSuggestions opts)
                         else Some (False, [])
                       else Some (False, []))))
      else Some (False, []))"



section \<open>The current word, as the specification words it\<close>

text \<open>
  The longest suffix without whitespace, none when it is empty: the specification's
  wording, to be compared with \<open>wordMatch\<close>.
\<close>

definition trailing_run :: "jsstring \<Rightarrow> jsstring" where
  "trailing_run s = rev (takeWhile non_space (rev s))"

definition spec_word :: "jsstring \<Rightarrow> jsstring option" where
  "spec_word s = (if trailing_run s = [] then None else Some (trailing_run s))"

text \<open>The code unit a cell contributes to \<open>textBefore\<close>.\<close>

definition cellChar :: "inline \<Rightarrow> char16" where
  "cellChar n = (case n of Text c \<Rightarrow> c | Leaf \<Rightarrow> placeholder)"

section \<open>Sample data\<close>

text \<open>
  The words of the repository's tests: \<^verbatim>\<open>vanakkam\<close>, its Tamil spelling (U+0BB5 U+0BA3
  U+0B95 U+0BCD U+0B95 U+0BAE U+0BCD) and the prefix \<^verbatim>\<open>van\<close>; a small engine that knows
  this one word; the default options with a callback; a document of one
  paragraph \<^verbatim>\<open>hi vanakkam\<close>, whose content starts at position 1.
\<close>

definition vanakkam :: jsstring where
  "vanakkam = [0x76, 0x61, 0x6E, 0x61, 0x6B, 0x6B, 0x61, 0x6D]"

definition vanakkam_tamil :: jsstring where
  "vanakkam_tamil = [0x0BB5, 0x0BA3, 0x0B95, 0x0BCD, 0x0B95, 0x0BAE, 0x0BCD]"

definition van :: jsstring where
  "van = [0x76, 0x61, 0x6E]"

definition sampleEngine :: engine where
  "sampleEngine =
     \<lparr>transliterate = (\<lambda>w. if w = vanakkam then vanakkam_tamil else w),
      containsTargetScript = list_ex (\<lambda>c. 0x0B80 \<le> c \<and> c \<le> 0x0BFF),
      getSuggestions =
        (\<lambda>q limit. if 0 < limit \<and> q = van
                    then [\<lparr>input = vanakkam, output = vanakkam_tamil\<rparr>] else [])\<rparr>"

definition sampleOptions :: options where
  "sampleOptions =
     \<lparr>triggerChars = [[0x20], Enter], onSuggestionsUpdate = True,
      minCharsForSuggestion = 2, maxSuggestions = 8\<rparr>"

definition sampleStorage :: storage where
  "sampleStorage = \<lparr>engine = Some sampleEngine, enabled = True\<rparr>"

definition sampleCells :: "inline list" where
  "sampleCells = map Text ([0x68, 0x69, 0x20] @ vanakkam)"

definition sampleDoc :: "block list" where
  "sampleDoc = [Textblock sampleCells]"

definition sampleCoords :: "nat \<Rightarrow> int coords" where
  "sampleCoords p =
     \<lparr>coords_top = 0, coords_bottom = 16, coords_left = 8 * int p, coords_right = 8 * int p\<rparr>"

text \<open>The paragraph in a view, with the selection from \<open>a\<close> to \<open>b\<close>.\<close>

definition sampleView :: "nat \<Rightarrow> nat \<Rightarrow> int editorView" where
  "sampleView a b =
     \<lparr>state = \<lparr>doc = sampleDoc, selection_from = a, selection_to = b\<rparr>,
      coordsAtPos = sampleCoords\<rparr>"

text \<open>A paragraph \<^verbatim>\<open>van\<close> with the cursor at its end.\<close>

definition vanView :: "int editorView" where
  "vanView =
     \<lparr>state = \<lparr>doc = [Textblock (map Text van)], selection_from = 4, selection_to = 4\<rparr>,
      coordsAtPos = sampleCoords\<rparr>"


text \<open>The content of a paragraph: \<^verbatim>\<open>a\<close>, an inline leaf, \<^verbatim>\<open>b\<close>.\<close>

definition leafCells :: "inline list" where
  "leafCells = [Text 0x61, Leaf, Text 0x62]"

text \<open>
  A paragraph \<^verbatim>\<open>vanakkam\<close> followed by a horizontal rule, with the rule selected as a
  node: the selection runs from 10 to 11, and 10 is a position of the top node.
\<close>

definition ruleDoc :: "block list" where
  "ruleDoc = [Textblock (map Text vanakkam), BlockLeaf]"

definition ruleView :: "int editorView" where
  "ruleView =
     \<lparr>state = \<lparr>doc = ruleDoc, selection_from = 10, selection_to = 11\<rparr>,
      coordsAtPos = sampleCoords\<rparr>"

text \<open>
  Two paragraphs \<^verbatim>\<open>van\<close> and \<^verbatim>\<open>akkam\<close>, selected from the start of the first (1) to
  the end of the second (11).
\<close>

definition twoParagraphs :: editorState where
  "twoParagraphs =
     \<lparr>doc = [Textblock (map Text van), Textblock (map Text [0x61, 0x6B, 0x6B, 0x61, 0x6D])],
      selection_from = 1, selection_to = 11\<rparr>"

text \<open>
  A cell that ends a word for the pattern: a whitespace code unit of the text. A leaf is
  none, since its placeholder is not in the class \<^verbatim>\<open>\s\<close>.
\<close>

definition cellIsSpace :: "inline \<Rightarrow> bool" where
  "cellIsSpace n = (case n of Text c \<Rightarrow> is_space c | Leaf \<Rightarrow> False)"

section \<open>The pattern finds the longest suffix without whitespace\<close>

lemma try_lengths_le:
  "k \<le> length s \<Longrightarrow> try_lengths s k = (if k = length s \<and> s \<noteq> [] then Some s else None)"
  by (induction k) auto

lemma takeWhile_length_all:
  "length (takeWhile P s) = length s \<longleftrightarrow> (\<forall>x\<in>set s. P x)"
proof
  assume "length (takeWhile P s) = length s"
  then have "takeWhile P s = s"
    by (metis takeWhile_eq_take take_all order_refl)
  then show "\<forall>x\<in>set s. P x"
    by (simp only: takeWhile_eq_all_conv)
next
  assume "\<forall>x\<in>set s. P x"
  then have "takeWhile P s = s"
    by (simp only: takeWhile_eq_all_conv)
  then show "length (takeWhile P s) = length s"
    by (rule arg_cong)
qed

lemma match_at_eq:
  "match_at s = (if s \<noteq> [] \<and> (\<forall>x\<in>set s. non_space x) then Some s else None)"
proof -
  have "length (takeWhile non_space s) \<le> length s"
    by (rule length_takeWhile_le)
  then show ?thesis
    by (simp add: match_at_def try_lengths_le takeWhile_length_all)
qed

lemma trailing_run_all:
  assumes "\<forall>x\<in>set s. non_space x"
  shows "trailing_run s = s"
proof -
  from assms have "\<forall>x\<in>set (rev s). non_space x" by simp
  then have "takeWhile non_space (rev s) = rev s"
    by (simp only: takeWhile_eq_all_conv)
  then show ?thesis by (simp only: trailing_run_def rev_rev_ident)
qed

lemma trailing_run_Cons:
  assumes "\<not> (\<forall>x\<in>set (c # cs). non_space x)"
  shows "trailing_run (c # cs) = trailing_run cs"
proof (cases "\<forall>x\<in>set cs. non_space x")
  case True
  with assms have c: "\<not> non_space c" by simp
  from True have "\<And>x. x \<in> set (rev cs) \<Longrightarrow> non_space x" by simp
  then have "takeWhile non_space (rev cs @ [c]) = rev cs @ takeWhile non_space [c]"
    by (rule takeWhile_append2)
  with c have "takeWhile non_space (rev (c # cs)) = rev cs" by simp
  moreover from True have "trailing_run cs = cs" by (rule trailing_run_all)
  ultimately show ?thesis by (simp add: trailing_run_def)
next
  case False
  then obtain x where "x \<in> set (rev cs)" "\<not> non_space x"
    by auto
  then have "takeWhile non_space (rev cs @ [c]) = takeWhile non_space (rev cs)"
    by (rule takeWhile_append1)
  then show ?thesis by (simp add: trailing_run_def)
qed

lemma wordMatch_spec: "wordMatch s = spec_word s"
proof (induction s)
  case Nil
  show ?case by (simp add: match_at_eq spec_word_def trailing_run_def)
next
  case (Cons c cs)
  show ?case
  proof (cases "\<forall>x\<in>set (c # cs). non_space x")
    case True
    then have "trailing_run (c # cs) = c # cs" by (rule trailing_run_all)
    moreover from True have "match_at (c # cs) = Some (c # cs)"
      by (simp add: match_at_eq)
    ultimately show ?thesis by (simp add: spec_word_def)
  next
    case False
    then have "trailing_run (c # cs) = trailing_run cs" by (rule trailing_run_Cons)
    moreover from False have "match_at (c # cs) = None"
      by (simp add: match_at_eq)
    ultimately show ?thesis using Cons.IH by (simp add: spec_word_def)
  qed
qed

lemma textBefore_cells: "textBefore (Textblock cs) k = map cellChar (take k cs)"
proof -
  have "concat (map (nodeText (Some [placeholder])) ns) = map cellChar ns" for ns
    by (induction ns)
      (auto simp: nodeText_def leafNodeText_def cellChar_def split: inline.splits)
  then show ?thesis
    by (simp add: textBefore_def inlineText_def)
qed

lemma textBefore_take:
  "textBefore (Textblock cs) k = take k (textBefore (Textblock cs) (length cs))"
  by (simp add: textBefore_cells take_map)

lemma trailing_run_suffix: "suffix (trailing_run s) s"
proof -
  have "rev (dropWhile non_space (rev s)) @ trailing_run s = s"
    unfolding trailing_run_def
    by (metis rev_append rev_rev_ident takeWhile_dropWhile_id)
  then show ?thesis
    by (metis suffixI)
qed

lemma trailing_run_non_space: "c \<in> set (trailing_run s) \<Longrightarrow> non_space c"
  unfolding trailing_run_def
  by (metis set_rev set_takeWhileD)

lemma prefix_takeWhile:
  assumes "prefix xs ys" and "\<forall>x\<in>set xs. P x"
  shows "prefix xs (takeWhile P ys)"
proof -
  from assms(1) obtain zs where "ys = xs @ zs" by (auto elim: prefixE)
  moreover from assms(2) have "takeWhile P (xs @ zs) = xs @ takeWhile P zs"
    by (simp add: takeWhile_append2)
  ultimately show ?thesis by simp
qed

lemma trailing_run_maximal:
  assumes "suffix v s" and "\<forall>c\<in>set v. non_space c"
  shows "suffix v (trailing_run s)"
proof -
  from assms(1) have "prefix (rev v) (rev s)" by (simp add: suffix_to_prefix)
  moreover from assms(2) have "\<forall>c\<in>set (rev v). non_space c" by simp
  ultimately have "prefix (rev v) (takeWhile non_space (rev s))"
    by (rule prefix_takeWhile)
  then show ?thesis
    by (simp add: suffix_to_prefix trailing_run_def)
qed

lemma trailing_run_empty:
  "trailing_run s = [] \<longleftrightarrow> s = [] \<or> is_space (last s)"
proof (cases s rule: rev_cases)
  case Nil
  then show ?thesis by (simp add: trailing_run_def)
next
  case (snoc ys y)
  then show ?thesis by (simp add: trailing_run_def non_space_def)
qed

text \<open>
  Claim C4. Let \<open>T\<close> be the text of a textblock (every leaf one placeholder) and
  \<open>k \<le> length T\<close>. The word extraction on \<open>(T, k)\<close>, that is the pattern run on
  \<open>textBefore (Textblock cs) k = T[0:k]\<close>, finds nothing exactly when \<open>T[0:k]\<close> is empty
  or ends in a whitespace character; a word it finds is a suffix of \<open>T[0:k]\<close> without
  whitespace, and every suffix of \<open>T[0:k]\<close> without whitespace is a suffix of it: it is
  the longest one.
\<close>

theorem word_extraction_maximal_run:
  assumes "k \<le> length (textBefore (Textblock cs) (length cs))"
  shows "(wordMatch (textBefore (Textblock cs) k) = None \<longleftrightarrow>
            take k (textBefore (Textblock cs) (length cs)) = []
            \<or> is_space (last (take k (textBefore (Textblock cs) (length cs)))))
         \<and> (\<forall>w. wordMatch (textBefore (Textblock cs) k) = Some w \<longrightarrow>
               suffix w (take k (textBefore (Textblock cs) (length cs)))
               \<and> (\<forall>c\<in>set w. \<not> is_space c)
               \<and> (\<forall>v. suffix v (take k (textBefore (Textblock cs) (length cs)))
                        \<and> (\<forall>c\<in>set v. \<not> is_space c) \<longrightarrow> suffix v w))"
proof -
  let ?s = "take k (textBefore (Textblock cs) (length cs))"
  have eq: "wordMatch (textBefore (Textblock cs) k) = spec_word ?s"
    using textBefore_take [of cs k] by (simp add: wordMatch_spec)
  have none: "spec_word ?s = None \<longleftrightarrow> ?s = [] \<or> is_space (last ?s)"
    by (simp add: spec_word_def trailing_run_empty)
  have some: "suffix w ?s \<and> (\<forall>c\<in>set w. \<not> is_space c)
      \<and> (\<forall>v. suffix v ?s \<and> (\<forall>c\<in>set v. \<not> is_space c) \<longrightarrow> suffix v w)"
    if "spec_word ?s = Some w" for w
  proof -
    from that have w: "w = trailing_run ?s"
      by (simp add: spec_word_def split: if_splits)
    show ?thesis
      unfolding w
      using trailing_run_suffix [of ?s] trailing_run_non_space [of _ ?s]
        trailing_run_maximal [of _ ?s]
      by (auto simp: non_space_def)
  qed
  from none some show ?thesis
    unfolding eq by blast
qed

theorem word_extraction_maximal_run_witness:
  "11 \<le> length (textBefore (Textblock sampleCells) (length sampleCells))
   \<and> suffix vanakkam (the (wordMatch (textBefore (Textblock sampleCells) 11)))"
proof
  have full: "textBefore (Textblock sampleCells) (length sampleCells)
      = [0x68, 0x69, 0x20] @ vanakkam"
    by (simp add: textBefore_cells sampleCells_def cellChar_def vanakkam_def)
  show h: "11 \<le> length (textBefore (Textblock sampleCells) (length sampleCells))"
    by (simp add: full vanakkam_def)
  have t: "take 11 (textBefore (Textblock sampleCells) (length sampleCells))
      = [0x68, 0x69, 0x20] @ vanakkam"
    by (simp add: full vanakkam_def)
  have ns: "\<forall>c\<in>set vanakkam. \<not> is_space c"
    by (simp add: vanakkam_def is_space_def)
  have sf: "suffix vanakkam (take 11 (textBefore (Textblock sampleCells) (length sampleCells)))"
    unfolding t by (rule suffix_appendI) simp
  note inst = word_extraction_maximal_run [OF h]
  from inst have "wordMatch (textBefore (Textblock sampleCells) 11) \<noteq> None"
    unfolding t by (simp add: vanakkam_def is_space_def)
  then obtain w where w: "wordMatch (textBefore (Textblock sampleCells) 11) = Some w"
    by blast
  with inst sf ns have "suffix vanakkam w"
    by blast
  with w show "suffix vanakkam (the (wordMatch (textBefore (Textblock sampleCells) 11)))"
    by simp
qed

section \<open>Every position of the document resolves\<close>



section \<open>The text of a range inside a textblock\<close>

lemma blocksText_to_0: "blocksText bs from 0 leafText = []"
proof (cases bs)
  case Nil
  then show ?thesis by simp
next
  case (Cons b bs')
  then show ?thesis by (cases b) simp_all
qed

lemma descend_textblock:
  assumes "descend (Container ps) off bs rem = Some (Textblock cs, k)"
  shows "k < rem \<and> k \<le> length cs"
  using assms
  by (induction "Container ps" off bs rem arbitrary: ps rule: descend.induct)
    (auto split: if_splits)

lemma descend_text:
  assumes "descend (Container ps) off bs rem = Some (Textblock cs, k)" and "n \<le> k"
  shows "blocksText bs (rem - n) rem leafText = inlineText cs (k - n) k leafText"
  using assms
proof (induction "Container ps" off bs rem arbitrary: ps rule: descend.induct)
  case (1 off rem)
  then show ?case by (simp split: if_splits)
next
  case (2 off cs' bs rem)
  show ?case
  proof (cases "rem < length cs' + 2")
    case True
    with 2 have e: "rem \<noteq> 0" "cs' = cs" "k = rem - 1"
      by (auto split: if_splits)
    with True 2(3) have a: "min (length cs) (rem - 1) = rem - 1" "rem - n < length cs + 2"
      "rem - n - 1 = rem - 1 - n" "rem - (length cs + 2) = 0"
      by simp_all
    from e show ?thesis
      by (simp only: blocksText.simps a blocksText_to_0 if_True if_False append_Nil2)
  next
    case False
    with 2 have d: "descend (Container ps) off bs (rem - (length cs' + 2)) = Some (Textblock cs, k)"
      by (auto split: if_splits)
    from descend_textblock [OF d] 2(3) have "n < rem - (length cs' + 2)" by simp
    then have a: "rem \<noteq> 0" "\<not> rem - n < length cs' + 2"
      "rem - n - (length cs' + 2) = rem - (length cs' + 2) - n"
      by simp_all
    from False a(1) have ih: "blocksText bs (rem - (length cs' + 2) - n)
        (rem - (length cs' + 2)) leafText = inlineText cs (k - n) k leafText"
      by (intro 2(1) [OF _ _ d 2(3)]) simp_all
    show ?thesis
      by (simp only: blocksText.simps a ih if_False append_Nil)
  qed
next
  case (3 off bs rem)
  then have "rem \<noteq> 0" by (auto split: if_splits)
  with 3 have d: "descend (Container ps) off bs (rem - 1) = Some (Textblock cs, k)"
    by simp
  from descend_textblock [OF d] 3(3) have "n < rem - 1" by simp
  then have a: "rem \<noteq> 0" "\<not> rem - n < 1" "rem - n - 1 = rem - 1 - n"
    by simp_all
  from a(1) have ih: "blocksText bs (rem - 1 - n) (rem - 1) leafText
      = inlineText cs (k - n) k leafText"
    by (intro 3(1) [OF _ d 3(3)]) simp_all
  show ?case
    by (simp only: blocksText.simps a ih if_False append_Nil)
next
  case (4 off cs' bs rem)
  then have r: "rem \<noteq> 0" by (auto split: if_splits)
  show ?case
  proof (cases "rem < contentSize cs' + 2")
    case True
    with r 4 have d: "descend (Container cs') (rem - 1) cs' (rem - 1) = Some (Textblock cs, k)"
      by simp
    from True r have a: "min (contentSize cs') (rem - 1) = rem - 1"
      "rem - n < contentSize cs' + 2" "rem - n - 1 = rem - 1 - n"
      "rem - (contentSize cs' + 2) = 0"
      by simp_all
    from True r have ih: "blocksText cs' (rem - 1 - n) (rem - 1) leafText
        = inlineText cs (k - n) k leafText"
      by (intro 4(1) [OF _ _ d 4(4)]) simp_all
    from r show ?thesis
      by (simp only: blocksText.simps a ih blocksText_to_0 if_True if_False append_Nil2)
  next
    case False
    with r 4 have d: "descend (Container ps) off bs (rem - (contentSize cs' + 2))
        = Some (Textblock cs, k)"
      by simp
    from descend_textblock [OF d] 4(4) have "n < rem - (contentSize cs' + 2)" by simp
    then have a: "\<not> rem - n < contentSize cs' + 2"
      "rem - n - (contentSize cs' + 2) = rem - (contentSize cs' + 2) - n"
      by simp_all
    from False r have ih: "blocksText bs (rem - (contentSize cs' + 2) - n)
        (rem - (contentSize cs' + 2)) leafText = inlineText cs (k - n) k leafText"
      by (intro 4(2) [OF _ _ d 4(4)]) simp_all
    from r show ?thesis
      by (simp only: blocksText.simps a ih if_False append_Nil)
  qed
qed

lemma wordMatch_Some:
  assumes "wordMatch s = Some w"
  shows "suffix w s" and "w \<noteq> []"
proof -
  from assms have w: "trailing_run s \<noteq> []" "w = trailing_run s"
    by (auto simp: wordMatch_spec spec_word_def split: if_splits)
  from w show "w \<noteq> []" by simp
  from w show "suffix w s" by (simp add: trailing_run_suffix)
qed

lemma word_in_textblock:
  assumes k: "k \<le> length cs"
    and w: "wordMatch (textBefore (Textblock cs) k) = Some word"
  shows "length word \<le> k"
    and "inlineText cs (k - length word) k (Some [placeholder]) = word"
proof -
  from w obtain pre where pre: "textBefore (Textblock cs) k = pre @ word"
    using wordMatch_Some(1) [OF w] by (auto elim: suffixE)
  from k have len: "length (textBefore (Textblock cs) k) = k"
    by (simp add: textBefore_cells)
  with pre have pk: "length pre + length word = k" by simp
  then show n: "length word \<le> k" by simp
  have "concat (map (nodeText (Some [placeholder])) ns) = map cellChar ns" for ns
    by (induction ns)
      (auto simp: nodeText_def leafNodeText_def cellChar_def split: inline.splits)
  with n have "inlineText cs (k - length word) k (Some [placeholder])
      = map cellChar (take (length word) (drop (k - length word) cs))"
    by (simp add: inlineText_def)
  also have "take (length word) (drop (k - length word) cs) = drop (k - length word) (take k cs)"
    using n by (simp add: drop_take)
  also have "map cellChar (drop (k - length word) (take k cs))
      = drop (k - length word) (textBefore (Textblock cs) k)"
    by (simp add: textBefore_cells drop_map)
  also have "\<dots> = word"
    using pk by (simp add: pre)
  finally show "inlineText cs (k - length word) k (Some [placeholder]) = word" .
qed

lemma word_range_in_textblock:
  assumes r: "resolve d pos = Some (Textblock cs, k)"
    and w: "wordMatch (textBefore (Textblock cs) k) = Some word"
  shows "textBetween (Container d) (pos - length word) pos (Some [placeholder]) = word"
proof -
  from r have d: "descend (Container d) pos d pos = Some (Textblock cs, k)"
    by (simp add: resolve_def split: if_splits)
  from descend_textblock [OF d] have k: "k \<le> length cs" by simp
  note wt = word_in_textblock [OF k w]
  from descend_text [OF d wt(1)] wt(2) show ?thesis by simp
qed

section \<open>Evaluating the sample data\<close>

lemmas sample_defs =
  sampleView_def sampleDoc_def sampleCells_def sampleStorage_def sampleEngine_def
  sampleOptions_def vanView_def sampleCoords_def vanakkam_def vanakkam_tamil_def van_def
  Enter_def ruleDoc_def ruleView_def twoParagraphs_def leafCells_def

lemmas eval_defs =
  textBefore_def inlineText_def nodeText_def leafNodeText_def match_at_def non_space_def
  is_space_def resolve_def placeholder_def

section \<open>The text-input handler\<close>

text \<open>
  Inside a textblock the handler does what its comments say: it returns true and
  dispatches one transaction that deletes \<open>[from - length word, from)\<close> and inserts the
  transliteration followed by the inserted text there, and the text of the document in
  the deleted range is the word.
\<close>

lemma handleTextInput_in_textblock:
  assumes "enabled st" and "engine st = Some e"
    and "text \<in> set (triggerChars opts)"
    and "resolve (doc (state view)) from = Some (Textblock cs, k)"
    and "wordMatch (textBefore (Textblock cs) k) = Some word"
    and "\<not> containsTargetScript e word"
    and "transliterate e word \<noteq> word"
  shows "handleTextInput opts st view from to text =
           Some (True,
             Dispatch [Delete (from - length word) from,
                       InsertText (transliterate e word @ text)
                         (from - length word) (from - length word)]
             # (if onSuggestionsUpdate opts then [Notify [] None] else []))
         \<and> textBetween (Container (doc (state view))) (from - length word) from
              (Some [placeholder]) = word"
  using assms word_range_in_textblock [OF assms(4) assms(5)]
  by (simp add: handleTextInput_def clearSuggestions_def Let_def)

text \<open>
  Claim C1 says that, for every state with the toggle enabled and an engine attached,
  when the inserted text is a trigger character and the word ending at the insertion point
  exists, has no target-script character and transliterates to something else, the handler
  deletes the range of the word and inserts the transliteration and the trigger as one
  transaction, returns true and notifies the callback. The code does not do so when the
  insertion point is a position of a node that is not a textblock. In the document of the
  paragraph \<^verbatim>\<open>vanakkam\<close> followed by a horizontal rule, with the rule selected as a node,
  a typed space reaches the handler with \<open>from = 10\<close>. The position resolves to the top
  node at offset 10, the text before it is \<^verbatim>\<open>vanakkam\<close>, the word is found, and the
  handler returns true with the transaction: delete 2 to 10, insert at 2. The word lies
  from 1 to 9; the range from 2 to 10 holds \<^verbatim>\<open>anakkam\<close> and the closing token of the
  paragraph.
\<close>

theorem handleTextInput_outside_textblock:
  "enabled sampleStorage \<and> engine sampleStorage = Some sampleEngine
   \<and> [0x20] \<in> set (triggerChars sampleOptions)
   \<and> resolve (doc (state ruleView)) 10 = Some (Container ruleDoc, 10)
   \<and> wordMatch (textBefore (Container ruleDoc) 10) = Some vanakkam
   \<and> \<not> containsTargetScript sampleEngine vanakkam
   \<and> transliterate sampleEngine vanakkam = vanakkam_tamil
   \<and> vanakkam_tamil \<noteq> vanakkam
   \<and> handleTextInput sampleOptions sampleStorage ruleView 10 11 [0x20] =
        Some (True, [Dispatch [Delete 2 10, InsertText (vanakkam_tamil @ [0x20]) 2 2],
                     Notify [] None])
   \<and> textBetween (Container ruleDoc) 2 10 (Some [placeholder])
        = [0x61, 0x6E, 0x61, 0x6B, 0x6B, 0x61, 0x6D]
   \<and> textBetween (Container ruleDoc) 2 10 (Some [placeholder]) \<noteq> vanakkam
   \<and> textBetween (Container ruleDoc) 1 9 (Some [placeholder]) = vanakkam"
  by (simp add: handleTextInput_def clearSuggestions_def sample_defs eval_defs)



section \<open>The key handler\<close>

text \<open>
  Inside a textblock, on Enter with no suggestion held to be active, the handler returns
  false and dispatches one transaction that replaces \<open>[from - length word, from)\<close> by the
  transliteration, and the text of the document in that range is the word.
\<close>

lemma handleKeyDown_in_textblock:
  assumes "enabled st" and "engine st = Some e"
    and "resolve (doc (state view)) (selection_from (state view)) = Some (Textblock cs, k)"
    and "wordMatch (textBefore (Textblock cs) k) = Some word"
    and "\<not> (getSuggestions e word 1 \<noteq> [] \<and> minCharsForSuggestion opts \<le> int (length word))"
    and "\<not> containsTargetScript e word"
    and "transliterate e word \<noteq> word"
  shows "handleKeyDown opts st view Enter =
           Some (False,
             Dispatch [Delete (selection_from (state view) - length word)
                         (selection_from (state view)),
                       InsertText (transliterate e word)
                         (selection_from (state view) - length word)
                         (selection_from (state view) - length word)]
             # (if onSuggestionsUpdate opts then [Notify [] None] else []))
         \<and> textBetween (Container (doc (state view)))
              (selection_from (state view) - length word) (selection_from (state view))
              (Some [placeholder]) = word"
  using assms word_range_in_textblock [OF assms(3) assms(4)]
  by (simp add: handleKeyDown_def clearSuggestions_def Let_def)

text \<open>
  Claim C2 says that, on every Enter key-press with the toggle enabled and an engine
  attached, when no suggestion is held to be active and the word before the cursor has no
  target-script character and transliterates to something else, the handler replaces the
  word in place. The code does not do so when the selection starts at a position of a
  node that is not a textblock. In the document of the paragraph \<^verbatim>\<open>vanakkam\<close> followed
  by a horizontal rule, with the rule selected as a node (\<open>from = 10\<close>), the position
  resolves to the top node, the text before it is \<^verbatim>\<open>vanakkam\<close>, the engine has no
  suggestion for it, and the handler returns false with the transaction: delete 2 to 10,
  insert the transliteration at 2. The word lies from 1 to 9; the range from 2 to 10
  holds \<^verbatim>\<open>anakkam\<close> and the closing token of the paragraph.
\<close>

theorem handleKeyDown_outside_textblock:
  "enabled sampleStorage \<and> engine sampleStorage = Some sampleEngine
   \<and> resolve (doc (state ruleView)) (selection_from (state ruleView)) = Some (Container ruleDoc, 10)
   \<and> wordMatch (textBefore (Container ruleDoc) 10) = Some vanakkam
   \<and> getSuggestions sampleEngine vanakkam 1 = []
   \<and> \<not> containsTargetScript sampleEngine vanakkam
   \<and> transliterate sampleEngine vanakkam = vanakkam_tamil
   \<and> vanakkam_tamil \<noteq> vanakkam
   \<and> handleKeyDown sampleOptions sampleStorage ruleView Enter =
        Some (False, [Dispatch [Delete 2 10, InsertText vanakkam_tamil 2 2], Notify [] None])
   \<and> textBetween (Container ruleDoc) 2 10 (Some [placeholder])
        = [0x61, 0x6E, 0x61, 0x6B, 0x6B, 0x61, 0x6D]
   \<and> textBetween (Container ruleDoc) 2 10 (Some [placeholder]) \<noteq> vanakkam
   \<and> textBetween (Container ruleDoc) 1 9 (Some [placeholder]) = vanakkam"
  by (simp add: handleKeyDown_def clearSuggestions_def sample_defs eval_defs)

section \<open>The suggestion notifier\<close>



section \<open>Inline leaves in the current word\<close>

lemma placeholder_non_space: "\<not> is_space placeholder"
  by (simp add: is_space_def placeholder_def)

text \<open>
  Claim C5, as amended. The placeholder U+FFFC that stands for an inline leaf is not a
  whitespace character of the pattern, so it is an ordinary word character: the word
  extracted is the text of the longest run of cells before the cursor that holds no
  whitespace code unit, leaves included, each leaf as one placeholder. The claim as
  stated (the placeholder is a word boundary and never part of the word) fails: in the
  paragraph \<^verbatim>\<open>a\<close>, leaf, \<^verbatim>\<open>b\<close> the word at the end is all three cells.
\<close>

theorem placeholder_is_word_character:
  "\<not> is_space placeholder
   \<and> wordMatch (textBefore (Textblock cs) k) =
       (let run = rev (takeWhile (\<lambda>n. \<not> cellIsSpace n) (rev (take k cs)))
        in if run = [] then None else Some (map cellChar run))"
proof -
  have f: "non_space \<circ> cellChar = (\<lambda>n. \<not> cellIsSpace n)"
    by (rule ext)
      (simp add: non_space_def cellChar_def cellIsSpace_def placeholder_non_space
        split: inline.splits)
  have "trailing_run (map cellChar ns)
      = map cellChar (rev (takeWhile (\<lambda>n. \<not> cellIsSpace n) (rev ns)))" for ns
    by (simp add: trailing_run_def rev_map takeWhile_map f)
  then show ?thesis
    by (simp add: placeholder_non_space wordMatch_spec spec_word_def textBefore_cells Let_def)
qed

theorem placeholder_boundary_counterexample:
  "wordMatch (textBefore (Textblock leafCells) 3) = Some [0x61, placeholder, 0x62]
   \<and> placeholder \<in> set (the (wordMatch (textBefore (Textblock leafCells) 3)))"
  by (simp add: textBefore_cells leafCells_def cellChar_def match_at_def non_space_def
      is_space_def placeholder_def)

theorem placeholder_is_word_character_witness:
  "wordMatch (textBefore (Textblock leafCells) 2) = Some [0x61, 0xFFFC]"
  using placeholder_is_word_character [of leafCells 2]
  by (simp add: leafCells_def cellIsSpace_def cellChar_def is_space_def placeholder_def)

section \<open>The commands\<close>

text \<open>
  Claim C6, as amended. \<open>transliterateSelection\<close> returns false with no effect when no
  engine is attached, or the selection is empty, or (the selection ending inside the
  document) the transliteration of the selected text equals it. Otherwise, for a
  selection that ends inside the document and whose transliteration is not empty: given
  a \<^verbatim>\<open>dispatch\<close> function it dispatches one transaction that replaces the selection
  range by the transliterated text and returns true; in a dry run (no \<^verbatim>\<open>dispatch\<close>)
  it returns true and dispatches nothing. It never calls the suggestion callback. The
  claim as stated fails in the dry run, where the command returns true and replaces
  nothing.
\<close>

theorem transliterateSelection_cases:
  "(engine st = None \<or> selection_from s = selection_to s
      \<longrightarrow> (transliterateSelection st s dispatch :: (bool \<times> 'n effect list) option)
            = Some (False, []))
   \<and> (selection_to s \<le> contentSize (doc s)
        \<and> engine st = Some e
        \<and> transliterate e
              (textBetween (Container (doc s)) (selection_from s) (selection_to s) None)
            = textBetween (Container (doc s)) (selection_from s) (selection_to s) None
      \<longrightarrow> (transliterateSelection st s dispatch :: (bool \<times> 'n effect list) option)
            = Some (False, []))
   \<and> (selection_to s \<le> contentSize (doc s)
        \<and> engine st = Some e
        \<and> selection_from s \<noteq> selection_to s
        \<and> transliterate e
              (textBetween (Container (doc s)) (selection_from s) (selection_to s) None)
            \<noteq> textBetween (Container (doc s)) (selection_from s) (selection_to s) None
        \<and> transliterate e
              (textBetween (Container (doc s)) (selection_from s) (selection_to s) None) \<noteq> []
      \<longrightarrow> (transliterateSelection st s True :: (bool \<times> 'n effect list) option) =
            Some (True, [Dispatch [ReplaceWith (selection_from s) (selection_to s)
                           (transliterate e
                              (textBetween (Container (doc s)) (selection_from s)
                                 (selection_to s) None))]])
          \<and> (transliterateSelection st s False :: (bool \<times> 'n effect list) option)
              = Some (True, []))
   \<and> (\<forall>r effs. (transliterateSelection st s dispatch :: (bool \<times> 'n effect list) option)
                   = Some (r, effs) \<longrightarrow> notified effs = [])"
proof (intro conjI)
  show "engine st = None \<or> selection_from s = selection_to s
      \<longrightarrow> (transliterateSelection st s dispatch :: (bool \<times> 'n effect list) option)
            = Some (False, [])"
    by (auto simp: transliterateSelection_def Let_def split: option.splits)
next
  show "selection_to s \<le> contentSize (doc s)
        \<and> engine st = Some e
        \<and> transliterate e
              (textBetween (Container (doc s)) (selection_from s) (selection_to s) None)
            = textBetween (Container (doc s)) (selection_from s) (selection_to s) None
      \<longrightarrow> (transliterateSelection st s dispatch :: (bool \<times> 'n effect list) option)
            = Some (False, [])"
    by (simp add: transliterateSelection_def Let_def)
next
  show "selection_to s \<le> contentSize (doc s)
        \<and> engine st = Some e
        \<and> selection_from s \<noteq> selection_to s
        \<and> transliterate e
              (textBetween (Container (doc s)) (selection_from s) (selection_to s) None)
            \<noteq> textBetween (Container (doc s)) (selection_from s) (selection_to s) None
        \<and> transliterate e
              (textBetween (Container (doc s)) (selection_from s) (selection_to s) None) \<noteq> []
      \<longrightarrow> (transliterateSelection st s True :: (bool \<times> 'n effect list) option) =
            Some (True, [Dispatch [ReplaceWith (selection_from s) (selection_to s)
                           (transliterate e
                              (textBetween (Container (doc s)) (selection_from s)
                                 (selection_to s) None))]])
          \<and> (transliterateSelection st s False :: (bool \<times> 'n effect list) option)
              = Some (True, [])"
    by (simp add: transliterateSelection_def Let_def schema_text_def)
next
  show "\<forall>r effs. (transliterateSelection st s dispatch :: (bool \<times> 'n effect list) option)
                   = Some (r, effs) \<longrightarrow> notified effs = []"
    by (auto simp: transliterateSelection_def Let_def schema_text_def
        split: option.splits if_splits)
qed

theorem transliterateSelection_dry_run_counterexample:
  "engine sampleStorage = Some sampleEngine
   \<and> selection_from (state (sampleView 4 12)) \<noteq> selection_to (state (sampleView 4 12))
   \<and> textBetween (Container sampleDoc) 4 12 None = vanakkam
   \<and> transliterate sampleEngine vanakkam \<noteq> vanakkam
   \<and> (transliterateSelection sampleStorage (state (sampleView 4 12)) False
        :: (bool \<times> int effect list) option) = Some (True, [])"
  by (simp add: transliterateSelection_def sample_defs eval_defs)

theorem transliterateSelection_cases_witness:
  "selection_to twoParagraphs \<le> contentSize (doc twoParagraphs)
   \<and> textBetween (Container (doc twoParagraphs)) (selection_from twoParagraphs)
        (selection_to twoParagraphs) None = vanakkam
   \<and> (transliterateSelection sampleStorage twoParagraphs True
        :: (bool \<times> int effect list) option) =
       Some (True, [Dispatch [ReplaceWith 1 11 vanakkam_tamil]])
   \<and> (transliterateSelection sampleStorage twoParagraphs False
        :: (bool \<times> int effect list) option) = Some (True, [])
   \<and> (transliterateSelection sampleStorage (state (sampleView 12 12)) True
        :: (bool \<times> int effect list) option) = Some (False, [])"
proof -
  have sz: "selection_to twoParagraphs \<le> contentSize (doc twoParagraphs)"
    by (simp add: twoParagraphs_def van_def)
  have eng: "engine sampleStorage = Some sampleEngine" by (simp add: sampleStorage_def)
  have sel: "textBetween (Container (doc twoParagraphs)) (selection_from twoParagraphs)
        (selection_to twoParagraphs) None = vanakkam"
    by (simp add: twoParagraphs_def van_def vanakkam_def inlineText_def nodeText_def)
  have fr: "selection_from twoParagraphs = 1" "selection_to twoParagraphs = 11"
    by (simp_all add: twoParagraphs_def)
  from sel have sel': "blocksText (doc twoParagraphs) (Suc 0) 11 None = vanakkam"
    by (simp add: fr)
  have tl: "transliterate sampleEngine vanakkam = vanakkam_tamil" by (simp add: sample_defs)
  have ne: "vanakkam_tamil \<noteq> vanakkam" "vanakkam_tamil \<noteq> []" by (simp_all add: sample_defs)
  note inst = transliterateSelection_cases
    [where 'n = int and st = sampleStorage and s = twoParagraphs and e = sampleEngine,
      THEN conjunct2, THEN conjunct2, THEN conjunct1]
  from inst sz eng ne
  have c: "(transliterateSelection sampleStorage twoParagraphs True
        :: (bool \<times> int effect list) option) =
       Some (True, [Dispatch [ReplaceWith 1 11 vanakkam_tamil]])
     \<and> (transliterateSelection sampleStorage twoParagraphs False
        :: (bool \<times> int effect list) option) = Some (True, [])"
    by (simp add: sel' tl fr)
  have "selection_from (state (sampleView 12 12)) = selection_to (state (sampleView 12 12))"
    by (simp add: sampleView_def)
  with transliterateSelection_cases
    [where 'n = int and st = sampleStorage and s = "state (sampleView 12 12)" and dispatch = True]
  have c': "(transliterateSelection sampleStorage (state (sampleView 12 12)) True
        :: (bool \<times> int effect list) option) = Some (False, [])"
    by blast
  from sz sel c c' show ?thesis by blast
qed

text \<open>
  Claim C7. \<open>setTransliteration b\<close> stores \<open>b\<close> as the enabled flag whatever the state
  (the engine is untouched), and when \<open>b\<close> is false and a callback is configured, the
  callback is called with the empty list and \<^verbatim>\<open>null\<close>.
\<close>

theorem setTransliteration_sets_flag:
  "(case (setTransliteration opts st b :: bool \<times> storage \<times> 'n effect list) of
      (r, st', effs) \<Rightarrow>
        enabled st' = b \<and> engine st' = engine st
        \<and> (\<not> b \<and> onSuggestionsUpdate opts \<longrightarrow> effs = [Notify [] None]))"
  by (simp add: setTransliteration_def)

theorem setTransliteration_sets_flag_witness:
  "onSuggestionsUpdate sampleOptions \<and> enabled sampleStorage
   \<and> \<not> enabled (fst (snd (setTransliteration sampleOptions sampleStorage False
                              :: bool \<times> storage \<times> int effect list)))
   \<and> snd (snd (setTransliteration sampleOptions sampleStorage False)) = [Notify [] None :: int effect]"
proof -
  have cb: "onSuggestionsUpdate sampleOptions" by (simp add: sampleOptions_def)
  have en: "enabled sampleStorage" by (simp add: sampleStorage_def)
  from setTransliteration_sets_flag
    [where 'n = int and opts = sampleOptions and st = sampleStorage and b = False] cb
  have "\<not> enabled (fst (snd (setTransliteration sampleOptions sampleStorage False
                              :: bool \<times> storage \<times> int effect list)))
     \<and> snd (snd (setTransliteration sampleOptions sampleStorage False))
         = [Notify [] None :: int effect]"
    by (simp add: case_prod_beta)
  with cb en show ?thesis by blast
qed

text \<open>
  Claim C9. \<open>toggleTransliteration\<close> is \<open>setTransliteration\<close> applied to the negation of
  the stored flag, and two toggles in a row give back the storage they started from.
\<close>

theorem toggle_is_set_of_negation:
  "(toggleTransliteration opts st :: bool \<times> storage \<times> 'n effect list)
     = setTransliteration opts st (\<not> enabled st)
   \<and> fst (snd (toggleTransliteration opts
               (fst (snd (toggleTransliteration opts st :: bool \<times> storage \<times> 'n effect list)))
             :: bool \<times> storage \<times> 'n effect list)) = st"
  by (simp add: toggleTransliteration_def setTransliteration_def)

theorem toggle_is_set_of_negation_witness:
  "fst (snd (toggleTransliteration sampleOptions
               (fst (snd (toggleTransliteration sampleOptions sampleStorage
                            :: bool \<times> storage \<times> int effect list)))
             :: bool \<times> storage \<times> int effect list)) = sampleStorage"
  by (rule toggle_is_set_of_negation
      [where 'n = int and opts = sampleOptions and st = sampleStorage, THEN conjunct2])

text \<open>
  Claim C10. With a callback configured, \<open>setTransliteration False\<close> calls it with the
  empty list and \<^verbatim>\<open>null\<close> in every state, also one where the flag is already
  false; and \<open>setTransliteration\<close> and \<open>toggleTransliteration\<close> return true for every
  argument and state.
\<close>

theorem setTransliteration_false_always_notifies:
  assumes "onSuggestionsUpdate opts"
  shows "snd (snd (setTransliteration opts st False)) = [Notify [] None :: 'n effect]
         \<and> snd (snd (setTransliteration opts (st\<lparr>enabled := False\<rparr>) False))
             = [Notify [] None :: 'n effect]
         \<and> fst (setTransliteration opts' st' b :: bool \<times> storage \<times> 'n effect list)
         \<and> fst (toggleTransliteration opts' st' :: bool \<times> storage \<times> 'n effect list)"
  using assms by (simp add: toggleTransliteration_def setTransliteration_def)

theorem setTransliteration_false_always_notifies_witness:
  "onSuggestionsUpdate sampleOptions
   \<and> \<not> enabled (sampleStorage\<lparr>enabled := False\<rparr>)
   \<and> snd (snd (setTransliteration sampleOptions (sampleStorage\<lparr>enabled := False\<rparr>) False))
       = [Notify [] None :: int effect]
   \<and> fst (setTransliteration sampleOptions sampleStorage True
            :: bool \<times> storage \<times> int effect list)
   \<and> fst (toggleTransliteration sampleOptions sampleStorage
            :: bool \<times> storage \<times> int effect list)"
proof -
  have cb: "onSuggestionsUpdate sampleOptions" by (simp add: sampleOptions_def)
  have dis: "\<not> enabled (sampleStorage\<lparr>enabled := False\<rparr>)" by simp
  note inst = setTransliteration_false_always_notifies
    [OF cb, where 'n = int and st = "sampleStorage\<lparr>enabled := False\<rparr>"
       and opts' = sampleOptions and st' = sampleStorage and b = True]
  from inst have n: "snd (snd (setTransliteration sampleOptions
        (sampleStorage\<lparr>enabled := False\<rparr>) False)) = [Notify [] None :: int effect]"
    by (rule conjunct1)
  from inst have r: "fst (setTransliteration sampleOptions sampleStorage True
            :: bool \<times> storage \<times> int effect list)
     \<and> fst (toggleTransliteration sampleOptions sampleStorage
            :: bool \<times> storage \<times> int effect list)"
    by blast
  from cb dis n r show ?thesis by blast
qed

end
